theory Spec2Isabelle
  imports Main "HOL-Library.AList"
begin

section \<open>Errors and Python string helpers\<close>

text \<open>
  The exceptions that the modelled parts of \<^verbatim>\<open>datasette/app.py\<close> can raise. Each
  carries the message (or the key) the source formats into it.
\<close>

datatype error =
    NotFound string
  | KeyError string
  | ValueError string
  | IndexError
  | OperationalError string
  | ProgrammingError string
  | InvalidSql string
  | MultipleFilesSameStem string

text \<open>
  \<^verbatim>\<open>s.rsplit(sep, 1)\<close> for a string that contains \<^verbatim>\<open>sep\<close>: the part before the last
  separator and the part after it.
\<close>

definition rsplit1 :: "char \<Rightarrow> string \<Rightarrow> string \<times> string" where
  "rsplit1 sep s =
     (rev (tl (dropWhile (\<lambda>c. c \<noteq> sep) (rev s))),
      rev (takeWhile (\<lambda>c. c \<noteq> sep) (rev s)))"

text \<open>
  Dictionaries (\<^verbatim>\<open>dict\<close>) are association lists with distinct keys in insertion order:
  \<open>map_of d k\<close> is \<^verbatim>\<open>d.get(k)\<close>, \<open>AList.update k v d\<close> is \<^verbatim>\<open>d[k] = v\<close>,
  \<open>AList.delete k d\<close> removes the key and \<open>length d\<close> is \<^verbatim>\<open>len(d)\<close>.
\<close>

type_synonym str_dict = "(string \<times> string) list"

text \<open>\<^verbatim>\<open>key.startswith(p)\<close> and \<^verbatim>\<open>sub in key\<close> on strings.\<close>

definition startswith :: "string \<Rightarrow> string \<Rightarrow> bool" where
  "startswith s p = (take (length p) s = p)"

fun contains :: "string \<Rightarrow> string \<Rightarrow> bool" where
  "contains [] sub = (sub = [])"
| "contains (c # cs) sub = (take (length sub) (c # cs) = sub \<or> contains cs sub)"

text \<open>\<^verbatim>\<open>sep.join(parts)\<close> and \<^verbatim>\<open>s.split(sep)\<close> for a one-character separator.\<close>

fun str_join :: "string \<Rightarrow> string list \<Rightarrow> string" where
  "str_join sep [] = []"
| "str_join sep [x] = x"
| "str_join sep (x # y # ys) = x @ sep @ str_join sep (y # ys)"

fun split_on :: "char \<Rightarrow> string \<Rightarrow> string list" where
  "split_on sep [] = [[]]"
| "split_on sep (c # cs) =
     (if c = sep then [] # split_on sep cs
      else (case split_on sep cs of [] \<Rightarrow> [[c]] | p # ps \<Rightarrow> (c # p) # ps))"

text \<open>
  \<^verbatim>\<open>str(n)\<close> of an integer, and \<^verbatim>\<open>int(s)\<close> of a string on the decimal form
  \<^verbatim>\<open>[+-]?[0-9]+\<close> (\<open>None\<close> is \<^verbatim>\<open>ValueError\<close>). Python's \<^verbatim>\<open>int\<close> also reads a
  number with blanks around it or underscores between its digits; those spellings are not
  modelled and count as errors here.
\<close>

definition digit_char :: "nat \<Rightarrow> char" where
  "digit_char d = ''0123456789'' ! (d mod 10)"

function str_nat :: "nat \<Rightarrow> string" where
  "str_nat n = (if n < 10 then [digit_char n] else str_nat (n div 10) @ [digit_char (n mod 10)])"
  by pat_completeness auto
termination
  by (relation "measure id") auto

declare str_nat.simps [simp del]

definition str_int :: "int \<Rightarrow> string" where
  "str_int i = (if i < 0 then CHR ''-'' # str_nat (nat (- i)) else str_nat (nat i))"

definition digit_value :: "char \<Rightarrow> nat option" where
  "digit_value c =
     (if c \<in> set ''0123456789'' then Some (length (takeWhile (\<lambda>d. d \<noteq> c) ''0123456789''))
      else None)"

fun digits_value :: "nat \<Rightarrow> string \<Rightarrow> nat option" where
  "digits_value acc [] = Some acc"
| "digits_value acc (c # cs) =
     (case digit_value c of None \<Rightarrow> None | Some d \<Rightarrow> digits_value (10 * acc + d) cs)"

definition py_int :: "string \<Rightarrow> int option" where
  "py_int s =
     (case s of
        [] \<Rightarrow> None
      | c # cs \<Rightarrow>
          if c = CHR ''-'' then (if cs = [] then None else map_option (\<lambda>n. - int n) (digits_value 0 cs))
          else if c = CHR ''+'' then (if cs = [] then None else map_option int (digits_value 0 cs))
          else map_option int (digits_value 0 s))"

section \<open>Resolving a database path segment\<close>

text \<open>
  One entry of the mapping \<^verbatim>\<open>Datasette.inspect()\<close> returns: the hex digest of the file,
  its path, and the row count of each table.
\<close>

record db_info =
  info_hash :: string
  info_file :: string
  info_tables :: "(string \<times> nat) list"

text \<open>
  The keyword arguments the router passes on: a key is absent (\<open>None\<close>) when the route
  has no such part.
\<close>

record route_kwargs =
  kw_table :: "string option"
  kw_pk_path :: "string option"
  kw_as_json :: "string option"
  kw_as_db :: "string option"

text \<open>
  \<^verbatim>\<open>BaseView.resolve_db_name\<close>, lines 80-113. \<open>databases\<close> is the mapping that
  \<^verbatim>\<open>self.ds.inspect()\<close> returned. The result is the triple
  \<^verbatim>\<open>(name, expected, should_redirect)\<close>, or the \<^verbatim>\<open>NotFound\<close> raised at line 98.
\<close>

definition resolve_db_name ::
  "(string \<rightharpoonup> db_info) \<Rightarrow> string \<Rightarrow> route_kwargs \<Rightarrow> error + (string \<times> string \<times> string option)"
where
  "resolve_db_name databases db_name kwargs =
     (let (name, hash) =
        (if CHR ''-'' \<in> set db_name then
           (let (n, h) = rsplit1 CHR ''-'' db_name in
            if databases n = None then (db_name, None) else (n, Some h))
         else (db_name, None))
      in case databases name of
           None \<Rightarrow> Inl (NotFound (''Database not found: '' @ name))
         | Some info \<Rightarrow>
             (let expected = take 7 (info_hash info) in
              if Some expected \<noteq> hash then
                (let should_redirect = ''/'' @ name @ ''-'' @ expected;
                     should_redirect = (case kw_table kwargs of
                         Some t \<Rightarrow> should_redirect @ ''/'' @ t | None \<Rightarrow> should_redirect);
                     should_redirect = (case kw_pk_path kwargs of
                         Some p \<Rightarrow> should_redirect @ ''/'' @ p | None \<Rightarrow> should_redirect);
                     should_redirect = (case kw_as_json kwargs of
                         Some j \<Rightarrow> should_redirect @ j | None \<Rightarrow> should_redirect);
                     should_redirect = (case kw_as_db kwargs of
                         Some d \<Rightarrow> should_redirect @ d | None \<Rightarrow> should_redirect)
                 in Inr (name, expected, Some should_redirect))
              else Inr (name, expected, None)))"

section \<open>The time-boxed executor\<close>

text \<open>
  The settings of \<^verbatim>\<open>Datasette.__init__\<close> that the executor and the table view read.
  \<open>max_returned_rows\<close> and \<open>page_size\<close> are row counts; \<open>0\<close> is the falsy setting of
  \<^verbatim>\<open>max_returned_rows\<close> (Python's \<^verbatim>\<open>0\<close> or \<^verbatim>\<open>None\<close>).
\<close>

record settings =
  page_size :: nat
  max_returned_rows :: nat
  sql_time_limit_ms :: int

text \<open>
  Lines 139-141: the limit handed to \<^verbatim>\<open>sqlite_timelimit\<close>. \<open>custom_time_limit\<close> is
  \<open>None\<close> when the caller passed none; \<^verbatim>\<open>if custom_time_limit and ...\<close> is false for
  \<^verbatim>\<open>None\<close> and for \<^verbatim>\<open>0\<close>.
\<close>

definition time_limit_ms :: "settings \<Rightarrow> int option \<Rightarrow> int" where
  "time_limit_ms ds custom_time_limit =
     (case custom_time_limit of
        None \<Rightarrow> sql_time_limit_ms ds
      | Some c \<Rightarrow> if c \<noteq> 0 \<and> c < sql_time_limit_ms ds then c else sql_time_limit_ms ds)"

text \<open>
  The cursor after \<^verbatim>\<open>cursor.execute\<close> holds the rows the statement produces, in
  order; \<^verbatim>\<open>fetchmany(n)\<close> reads the next \<open>n\<close> of them (fewer when fewer are left),
  \<^verbatim>\<open>fetchall()\<close> reads them all.
\<close>

definition fetchmany :: "nat \<Rightarrow> 'r list \<Rightarrow> 'r list" where
  "fetchmany n cursor = take n cursor"

definition fetchall :: "'r list \<Rightarrow> 'r list" where
  "fetchall cursor = cursor"

text \<open>
  Lines 147-153: the rows read from the cursor. \<open>do_truncate\<close> is the argument
  \<^verbatim>\<open>truncate\<close>.
\<close>

definition fetched :: "settings \<Rightarrow> bool \<Rightarrow> 'r list \<Rightarrow> 'r list" where
  "fetched ds do_truncate cursor =
     (if max_returned_rows ds \<noteq> 0 \<and> do_truncate
      then fetchmany (max_returned_rows ds + 1) cursor
      else fetchall cursor)"

text \<open>
  What \<^verbatim>\<open>execute\<close> returns: the rows alone, or with \<^verbatim>\<open>truncate=True\<close> the triple
  \<^verbatim>\<open>(rows, truncated, cursor.description)\<close>. The description is modelled by its column
  names.
\<close>

datatype 'r executed =
    Rows "'r list"
  | RowsTruncated "'r list" bool "string list"

text \<open>
  \<^verbatim>\<open>BaseView.execute\<close>, lines 125-166. The SQL engine is the parameter \<open>engine\<close>: for a
  time limit, a statement and its parameters it gives the rows the statement produces and
  its column names, or the exception \<^verbatim>\<open>cursor.execute\<close> raises (a syntax error, a
  missing binding, the time limit). The connection cache of lines 128-137 does not change
  what is returned and is left out.
\<close>

definition execute ::
  "settings \<Rightarrow> (int \<Rightarrow> 'q \<Rightarrow> (string \<times> string) list \<Rightarrow> error + ('r list \<times> string list)) \<Rightarrow>
   'q \<Rightarrow> (string \<times> string) list \<Rightarrow> bool \<Rightarrow> int option \<Rightarrow> error + 'r executed"
where
  "execute ds engine sql params do_truncate custom_time_limit =
     (case engine (time_limit_ms ds custom_time_limit) sql params of
        Inl e \<Rightarrow> Inl e
      | Inr (cursor, description) \<Rightarrow>
          (let rows = fetched ds do_truncate cursor;
               truncated = (if max_returned_rows ds \<noteq> 0 \<and> do_truncate
                            then length rows > max_returned_rows ds else False);
               rows = (if max_returned_rows ds \<noteq> 0 \<and> do_truncate
                       then take (max_returned_rows ds) rows else rows)
           in if do_truncate then Inr (RowsTruncated rows truncated description)
              else Inr (Rows rows)))"

section \<open>The database registry\<close>

text \<open>
  The part of a \<^verbatim>\<open>Datasette\<close> object that \<^verbatim>\<open>inspect\<close> reads and writes: the
  configured files and the attribute \<^verbatim>\<open>_inspect\<close> (\<open>None\<close>, or the dictionary from
  name to entry, which may be the \<^verbatim>\<open>inspect_data\<close> given to the constructor).
\<close>

record datasette =
  ds_files :: "string list"
  ds_inspect :: "(string \<times> db_info) list option"

text \<open>
  Lines 619-653, the loop over the files. \<open>stem\<close> is \<^verbatim>\<open>Path(filename).stem\<close>;
  \<open>scan\<close> stands for lines 624-653, which read the file: its digest, path and tables, or
  the exception raised while opening or querying it. \<open>acc\<close> is \<^verbatim>\<open>self._inspect\<close>,
  which the loop fills entry by entry; it is returned together with the exception when
  the loop is left by one.
\<close>

fun inspect_files ::
  "(string \<Rightarrow> string) \<Rightarrow> (string \<Rightarrow> error + db_info) \<Rightarrow> string list \<Rightarrow>
   (string \<times> db_info) list \<Rightarrow> error option \<times> (string \<times> db_info) list"
where
  "inspect_files stem scan [] acc = (None, acc)"
| "inspect_files stem scan (filename # rest) acc =
     (let name = stem filename in
      if map_of acc name \<noteq> None then (Some (MultipleFilesSameStem name), acc)
      else (case scan filename of
              Inl e \<Rightarrow> (Some e, acc)
            | Inr info \<Rightarrow> inspect_files stem scan rest (AList.update name info acc)))"

text \<open>
  \<^verbatim>\<open>Datasette.inspect\<close>, lines 616-654: the value returned or the exception raised,
  and the object afterwards. \<^verbatim>\<open>not self._inspect\<close> holds for \<^verbatim>\<open>None\<close> and for the
  empty dictionary.
\<close>

definition inspect ::
  "(string \<Rightarrow> string) \<Rightarrow> (string \<Rightarrow> error + db_info) \<Rightarrow> datasette \<Rightarrow>
   (error + (string \<times> db_info) list) \<times> datasette"
where
  "inspect stem scan ds =
     (case ds_inspect ds of
        Some (entry # entries) \<Rightarrow> (Inr (entry # entries), ds)
      | _ \<Rightarrow>
          (case inspect_files stem scan (ds_files ds) [] of
             (None, found) \<Rightarrow> (Inr found, ds\<lparr>ds_inspect := Some found\<rparr>)
           | (Some e, found) \<Rightarrow> (Inl e, ds\<lparr>ds_inspect := Some found\<rparr>)))"

text \<open>
  \<^verbatim>\<open>PurePosixPath(filename).stem\<close> for a path without a trailing slash: the last
  component, without its last suffix when the last dot is neither its first nor its last
  character.
\<close>

definition path_stem :: "string \<Rightarrow> string" where
  "path_stem filename =
     (let name = rev (takeWhile (\<lambda>c. c \<noteq> CHR ''/'') (rev filename));
          after = rev (takeWhile (\<lambda>c. c \<noteq> CHR ''.'') (rev name))
      in if CHR ''.'' \<in> set name \<and> after \<noteq> [] \<and> Suc (length after) < length name
         then take (length name - Suc (length after)) name
         else name)"

section \<open>Custom SQL\<close>

text \<open>
  The character class of \<^verbatim>\<open>re_named_parameter = re.compile(':([a-zA-Z0-0_]+)')\<close>,
  line 299: the ranges \<^verbatim>\<open>a-z\<close>, \<^verbatim>\<open>A-Z\<close> and \<^verbatim>\<open>0-0\<close>, and the underscore.
\<close>

definition named_parameter_char :: "char \<Rightarrow> bool" where
  "named_parameter_char c =
     (c \<in> set ''abcdefghijklmnopqrstuvwxyz'' \<or> c \<in> set ''ABCDEFGHIJKLMNOPQRSTUVWXYZ''
      \<or> c \<in> set ''0'' \<or> c = CHR ''_'')"

text \<open>
  The characters of an identifier as the specification words it: letters, digits and
  underscores.
\<close>

definition identifier_char :: "char \<Rightarrow> bool" where
  "identifier_char c =
     (c \<in> set ''abcdefghijklmnopqrstuvwxyz'' \<or> c \<in> set ''ABCDEFGHIJKLMNOPQRSTUVWXYZ''
      \<or> c \<in> set ''0123456789'' \<or> c = CHR ''_'')"

text \<open>
  \<^verbatim>\<open>re.compile(':([cls]+)').findall(sql)\<close> for a character class \<open>cls\<close> without the
  colon: scanning from the left, a colon followed by at least one character of the class
  matches with the longest run of them, the run is the group returned, and the scan goes
  on behind the match.
\<close>

function findall_named :: "(char \<Rightarrow> bool) \<Rightarrow> string \<Rightarrow> string list" where
  "findall_named cls [] = []"
| "findall_named cls (c # cs) =
     (if c = CHR '':'' \<and> takeWhile cls cs \<noteq> []
      then takeWhile cls cs # findall_named cls (dropWhile cls cs)
      else findall_named cls cs)"
  by pat_completeness auto
termination
  by (relation "measure (\<lambda>(cls, s). length s)") (auto simp: length_dropWhile_le less_Suc_eq_le)

definition re_named_parameter_findall :: "string \<Rightarrow> string list" where
  "re_named_parameter_findall sql = findall_named named_parameter_char sql"

text \<open>The \<^verbatim>\<open>:identifier\<close> tokens of a statement as the specification words them.\<close>

definition spec_named_parameters :: "string \<Rightarrow> string list" where
  "spec_named_parameters sql = findall_named identifier_char sql"

text \<open>
  Lines 332-341 of \<^verbatim>\<open>DatabaseView.custom_sql\<close>: from the statement and the caller's
  parameters, the dictionary \<^verbatim>\<open>named_parameter_values\<close> and the parameters after the
  loop that sets the missing ones.
\<close>

definition named_parameter_values :: "string \<Rightarrow> str_dict \<Rightarrow> str_dict" where
  "named_parameter_values sql params =
     fold (\<lambda>named_parameter d.
             AList.update named_parameter
               (case map_of params named_parameter of
                  None \<Rightarrow> '''' | Some v \<Rightarrow> if v \<noteq> [] then v else '''') d)
          (re_named_parameter_findall sql) []"

definition set_missing :: "string \<Rightarrow> str_dict \<Rightarrow> str_dict" where
  "set_missing sql params =
     fold (\<lambda>named_parameter ps.
             if map_of ps named_parameter = None then AList.update named_parameter '''' ps
             else ps)
          (re_named_parameter_findall sql) params"

text \<open>
  \<^verbatim>\<open>extra_args\<close> of lines 343-345 and 465-467: the time limit of the request, when
  the argument is there and not empty; \<^verbatim>\<open>int\<close> raises on what is not a number.
\<close>

definition custom_time_limit_of :: "str_dict \<Rightarrow> error + int option" where
  "custom_time_limit_of params =
     (case map_of params ''_sql_time_limit_ms'' of
        None \<Rightarrow> Inr None
      | Some v \<Rightarrow>
          if v = [] then Inr None
          else (case py_int v of None \<Rightarrow> Inl (ValueError v) | Some n \<Rightarrow> Inr (Some n)))"

record 'r custom_sql_data =
  cs_rows :: "'r list"
  cs_truncated :: bool
  cs_columns :: "string list"
  cs_query_sql :: string
  cs_query_params :: str_dict
  cs_named_parameter_values :: str_dict

text \<open>
  \<^verbatim>\<open>DatabaseView.custom_sql\<close>, lines 326-363. \<open>raw_args\<close> is \<^verbatim>\<open>request.raw_args\<close>;
  \<open>validate_sql_select\<close> is the function of \<^verbatim>\<open>utils\<close>, which gives the exception it
  raises or \<open>None\<close>. The database name and hash are passed through unchanged and left out.
\<close>

definition custom_sql ::
  "settings \<Rightarrow> (int \<Rightarrow> string \<Rightarrow> str_dict \<Rightarrow> error + ('r list \<times> string list)) \<Rightarrow>
   (string \<Rightarrow> error option) \<Rightarrow> str_dict \<Rightarrow> error + 'r custom_sql_data"
where
  "custom_sql ds engine validate_sql_select raw_args =
     (case map_of raw_args ''sql'' of
        None \<Rightarrow> Inl (KeyError ''sql'')
      | Some sql \<Rightarrow>
          (let params = AList.delete ''sql'' raw_args in
           case validate_sql_select sql of
             Some e \<Rightarrow> Inl e
           | None \<Rightarrow>
               (let values = named_parameter_values sql params;
                    params = set_missing sql params
                in case custom_time_limit_of params of
                     Inl e \<Rightarrow> Inl e
                   | Inr custom_time_limit \<Rightarrow>
                       (case execute ds engine sql params True custom_time_limit of
                          Inl e \<Rightarrow> Inl e
                        | Inr (Rows rows) \<Rightarrow> Inl (ValueError ''unpack'')
                        | Inr (RowsTruncated rows truncated description) \<Rightarrow>
                            Inr \<lparr>cs_rows = rows, cs_truncated = truncated,
                                 cs_columns = description, cs_query_sql = sql,
                                 cs_query_params = params,
                                 cs_named_parameter_values = values\<rparr>))))"

text \<open>
  What \<^verbatim>\<open>sqlite3\<close> does with the named parameters of a statement: \<^verbatim>\<open>cursor.execute\<close>
  raises \<^verbatim>\<open>ProgrammingError\<close> when the statement has a placeholder \<^verbatim>\<open>:name\<close> that the
  mapping does not bind, and runs the statement otherwise. \<open>answer\<close> is what the
  statement produces when it runs; the placeholders are the \<^verbatim>\<open>:identifier\<close> tokens of
  letters, digits and underscores.
\<close>

definition binding_engine ::
  "'r list \<times> string list \<Rightarrow> int \<Rightarrow> string \<Rightarrow> str_dict \<Rightarrow> error + ('r list \<times> string list)"
where
  "binding_engine answer time_limit sql params =
     (case filter (\<lambda>name. map_of params name = None) (spec_named_parameters sql) of
        [] \<Rightarrow> Inr answer
      | name # _ \<Rightarrow>
          Inl (ProgrammingError (''You did not supply a value for binding '' @ name)))"

section \<open>Browsing a table\<close>

text \<open>
  The statement \<^verbatim>\<open>TableView.data\<close> sends to the executor, by its parts. The source
  keeps \<^verbatim>\<open>where_clauses\<close> as a list of strings; here a clause is the string the filter
  builder made, or one of the two keyset clauses the view adds for a cursor, with the
  number of its parameter: \<^verbatim>\<open>'rowid > :p{}'\<close> (line 431) and \<^verbatim>\<open>'"{}" > :p{}'\<close>
  (line 442). \<open>render_clause\<close> gives the string.
\<close>

datatype where_clause =
    FilterClause string
  | RowidAfter nat
  | PkAfter string nat

fun render_clause :: "where_clause \<Rightarrow> string" where
  "render_clause (FilterClause s) = s"
| "render_clause (RowidAfter n) = ''rowid > :p'' @ str_nat n"
| "render_clause (PkAfter pk n) = [CHR 0x22] @ pk @ [CHR 0x22] @ '' > :p'' @ str_nat n"

record sql_query =
  q_select :: string
  q_table_name :: string
  q_where :: "where_clause list"
  q_order_by :: "string list"
  q_limit :: nat
  q_offset :: "int option"

text \<open>
  Lines 449-463: the text of the statement. \<open>q_order_by\<close> holds the columns joined at
  line 401 (or \<^verbatim>\<open>rowid\<close>), \<open>q_offset\<close> the number of line 428.
\<close>

definition render_sql :: "sql_query \<Rightarrow> string" where
  "render_sql q =
     (let where_clause =
            (if q_where q \<noteq> []
             then ''where '' @ str_join '' and '' (map render_clause (q_where q)) @ '' ''
             else []);
          order_by = str_join '', '' (q_order_by q);
          order_by = (if order_by \<noteq> [] then ''order by '' @ order_by @ '' '' else []);
          offset = (case q_offset q of None \<Rightarrow> [] | Some n \<Rightarrow> '' offset '' @ str_int n)
      in ''select '' @ q_select q @ '' from '' @ q_table_name q @ '' '' @ where_clause
         @ order_by @ ''limit '' @ str_nat (q_limit q) @ offset)"

text \<open>
  The functions of \<^verbatim>\<open>datasette/utils.py\<close> that the table view calls. The module is not
  part of the sources, so the view takes them as parameters.
\<close>

record 'r utils =
  build_where_clauses :: "str_dict \<Rightarrow> string list \<times> str_dict"
  compound_pks_from_path :: "string \<Rightarrow> string list"
  path_from_row_pks :: "'r \<Rightarrow> string list \<Rightarrow> bool \<Rightarrow> string"
  escape_sqlite_table_name :: "string \<Rightarrow> string"

text \<open>
  Lines 409-415: the arguments of the request, each key with the list of its values, are
  split into \<^verbatim>\<open>special_args\<close> and \<^verbatim>\<open>other_args\<close>. \<^verbatim>\<open>value[0]\<close> raises on an empty
  list.
\<close>

fun partition_args ::
  "(string \<times> string list) list \<Rightarrow> str_dict \<Rightarrow> str_dict \<Rightarrow> error + (str_dict \<times> str_dict)"
where
  "partition_args [] special_args other_args = Inr (special_args, other_args)"
| "partition_args ((key, value) # items) special_args other_args =
     (case value of
        [] \<Rightarrow> Inl IndexError
      | v0 # _ \<Rightarrow>
          if startswith key ''_'' \<and> \<not> contains key ''__''
          then partition_args items (AList.update key v0 special_args) other_args
          else partition_args items special_args (AList.update key v0 other_args))"

text \<open>
  \<^verbatim>\<open>request.raw_args\<close>, the dictionary \<^verbatim>\<open>{k: v[0] for k, v in self.args.items()}\<close>.
\<close>

fun raw_args :: "(string \<times> string list) list \<Rightarrow> error + str_dict" where
  "raw_args [] = Inr []"
| "raw_args ((k, v) # items) =
     (case v of
        [] \<Rightarrow> Inl IndexError
      | v0 # _ \<Rightarrow> (case raw_args items of Inl e \<Rightarrow> Inl e | Inr d \<Rightarrow> Inr ((k, v0) # d)))"

text \<open>
  Lines 417-421: the filter builder is called with \<^verbatim>\<open>other_args\<close>, and only when
  there are any.
\<close>

definition filter_clauses :: "'r utils \<Rightarrow> str_dict \<Rightarrow> where_clause list \<times> str_dict" where
  "filter_clauses u other_args =
     (if other_args \<noteq> []
      then (case build_where_clauses u other_args of
              (where_clauses, params) \<Rightarrow> (map FilterClause where_clauses, params))
      else ([], []))"

text \<open>Lines 439-447: one clause and one parameter for each primary key of the cursor.\<close>

fun pk_clauses ::
  "(string \<times> string) list \<Rightarrow> nat \<Rightarrow> where_clause list \<Rightarrow> str_dict \<Rightarrow> where_clause list \<times> str_dict"
where
  "pk_clauses [] param_counter where_clauses params = (where_clauses, params)"
| "pk_clauses ((pk, value) # rest) param_counter where_clauses params =
     pk_clauses rest (param_counter + 1) (where_clauses @ [PkAfter pk param_counter])
       (AList.update (''p'' @ str_nat param_counter) value params)"

text \<open>
  Lines 423-447: what the cursor \<^verbatim>\<open>_next\<close> adds to the clauses, the parameters and the
  offset. \<^verbatim>\<open>if next\<close> is false for a missing and for an empty argument.
\<close>

definition apply_next ::
  "'r utils \<Rightarrow> string list \<Rightarrow> bool \<Rightarrow> bool \<Rightarrow> string option \<Rightarrow> where_clause list \<Rightarrow> str_dict \<Rightarrow>
   error + (where_clause list \<times> str_dict \<times> int option)"
where
  "apply_next u pks is_view use_rowid next where_clauses params =
     (case next of
        None \<Rightarrow> Inr (where_clauses, params, None)
      | Some nxt \<Rightarrow>
          if nxt = [] then Inr (where_clauses, params, None)
          else if is_view then
            (case py_int nxt of
               None \<Rightarrow> Inl (ValueError nxt)
             | Some n \<Rightarrow> Inr (where_clauses, params, Some n))
          else if use_rowid then
            Inr (where_clauses @ [RowidAfter (length params)],
                 AList.update (''p'' @ str_nat (length params)) nxt params, None)
          else
            (let pk_values = compound_pks_from_path u nxt in
             if length pk_values = length pks then
               (case pk_clauses (zip pks pk_values) (length params) where_clauses params of
                  (where_clauses, params) \<Rightarrow> Inr (where_clauses, params, None))
             else Inr (where_clauses, params, None)))"

text \<open>
  Lines 395-463: the statement and its parameters, with the cursor read on the way.
  \<open>pks\<close> is what \<^verbatim>\<open>pks_for_table\<close> returned and \<open>is_view\<close> the answer of the
  catalogue query of line 382; \<open>table\<close> is the unquoted table name.
\<close>

definition table_query ::
  "settings \<Rightarrow> 'r utils \<Rightarrow> string \<Rightarrow> string list \<Rightarrow> bool \<Rightarrow> (string \<times> string list) list \<Rightarrow>
   error + (sql_query \<times> str_dict \<times> string option)"
where
  "table_query ds u table pks is_view args =
     (let use_rowid = (pks = [] \<and> \<not> is_view);
          select = (if use_rowid then ''rowid, *'' else ''*'');
          order_by = (if use_rowid then [''rowid''] else pks);
          order_by = (if is_view then [] else order_by)
      in case partition_args args [] [] of
           Inl e \<Rightarrow> Inl e
         | Inr (special_args, other_args) \<Rightarrow>
             (case filter_clauses u other_args of
                (where_clauses, params) \<Rightarrow>
                  (let next = map_of special_args ''_next'' in
                   case apply_next u pks is_view use_rowid next where_clauses params of
                     Inl e \<Rightarrow> Inl e
                   | Inr (where_clauses, params, offset) \<Rightarrow>
                       Inr (\<lparr>q_select = select,
                             q_table_name = escape_sqlite_table_name u table,
                             q_where = where_clauses,
                             q_order_by = order_by,
                             q_limit = page_size ds + 1,
                             q_offset = offset\<rparr>, params, next))))"

text \<open>
  The value \<^verbatim>\<open>next_value\<close> of lines 484-490: a number for a view, a path of primary
  keys otherwise. \<open>next_truthy\<close> is its truth value and \<open>next_str\<close> is \<^verbatim>\<open>str\<close> of it.
\<close>

datatype next_value = NextOffset int | NextPath string

fun next_truthy :: "next_value \<Rightarrow> bool" where
  "next_truthy (NextOffset n) = (n \<noteq> 0)"
| "next_truthy (NextPath s) = (s \<noteq> [])"

fun next_str :: "next_value \<Rightarrow> string" where
  "next_str (NextOffset n) = str_int n"
| "next_str (NextPath s) = s"

text \<open>
  Lines 484-493: the cursor of the next page from the rows that came back. \<^verbatim>\<open>rows[-2]\<close>
  raises when there are fewer than two rows; \<^verbatim>\<open>int(next or 0)\<close> is \<open>0\<close> for a missing or
  empty cursor.
\<close>

definition next_page ::
  "settings \<Rightarrow> 'r utils \<Rightarrow> string list \<Rightarrow> bool \<Rightarrow> bool \<Rightarrow> string option \<Rightarrow> 'r list \<Rightarrow>
   error + next_value option"
where
  "next_page ds u pks is_view use_rowid next rows =
     (if length rows > page_size ds then
        (if is_view then
           (case (case next of None \<Rightarrow> Some 0
                  | Some nxt \<Rightarrow> if nxt = [] then Some 0 else py_int nxt) of
              None \<Rightarrow> Inl (ValueError (case next of None \<Rightarrow> [] | Some nxt \<Rightarrow> nxt))
            | Some n \<Rightarrow> Inr (Some (NextOffset (n + int (page_size ds)))))
         else if length rows < 2 then Inl IndexError
         else Inr (Some (NextPath
                (path_from_row_pks u (rows ! (length rows - 2)) pks use_rowid))))
      else Inr None)"

text \<open>
  The dictionary \<^verbatim>\<open>TableView.data\<close> returns, lines 495-511. \<open>td_next_value\<close> is the
  value that line 492 puts into \<^verbatim>\<open>next_url\<close> as its \<^verbatim>\<open>_next\<close> argument; the table
  and view definitions and the row count come from further catalogue lookups and are left
  out.
\<close>

record 'r table_data =
  td_is_view :: bool
  td_rows :: "'r list"
  td_truncated :: bool
  td_columns :: "string list"
  td_primary_keys :: "string list"
  td_query_sql :: string
  td_query_params :: str_dict
  td_next :: "string option"
  td_next_value :: "next_value option"

text \<open>
  \<^verbatim>\<open>TableView.data\<close>, lines 379-517. The engine is given the statement by its parts
  (its text is \<open>render_sql\<close> of them) and the parameters.
\<close>

definition table_view_data ::
  "settings \<Rightarrow> 'r utils \<Rightarrow>
   (int \<Rightarrow> sql_query \<Rightarrow> str_dict \<Rightarrow> error + ('r list \<times> string list)) \<Rightarrow>
   string \<Rightarrow> string list \<Rightarrow> bool \<Rightarrow> (string \<times> string list) list \<Rightarrow> error + 'r table_data"
where
  "table_view_data ds u engine table pks is_view args =
     (case table_query ds u table pks is_view args of
        Inl e \<Rightarrow> Inl e
      | Inr (sql, params, next) \<Rightarrow>
          (case raw_args args of
             Inl e \<Rightarrow> Inl e
           | Inr request_raw_args \<Rightarrow>
               (case custom_time_limit_of request_raw_args of
                  Inl e \<Rightarrow> Inl e
                | Inr custom_time_limit \<Rightarrow>
                    (case execute ds engine sql params True custom_time_limit of
                       Inl e \<Rightarrow> Inl e
                     | Inr (Rows rows) \<Rightarrow> Inl (ValueError ''unpack'')
                     | Inr (RowsTruncated rows truncated description) \<Rightarrow>
                         (let use_rowid = (pks = [] \<and> \<not> is_view) in
                          case next_page ds u pks is_view use_rowid next rows of
                            Inl e \<Rightarrow> Inl e
                          | Inr next_value \<Rightarrow>
                              Inr \<lparr>td_is_view = is_view,
                                   td_rows = take (page_size ds) rows,
                                   td_truncated = truncated,
                                   td_columns = description,
                                   td_primary_keys = pks,
                                   td_query_sql = render_sql sql,
                                   td_query_params = params,
                                   td_next = (case next_value of
                                       None \<Rightarrow> None
                                     | Some v \<Rightarrow>
                                         if next_truthy v then Some (next_str v) else None),
                                   td_next_value = next_value\<rparr>)))))"

section \<open>A table of integers behind the engine\<close>

text \<open>
  To run the table view on a concrete table, a model of what SQLite answers to the
  statements of \<open>table_query\<close>, for a table whose columns all hold integers and have
  integer affinity. A stored row is its rowid and its columns by name; a row of a result
  is the list of its columns by name, as \<^verbatim>\<open>sqlite3.Row\<close> gives them.
\<close>

type_synonym stored_row = "int \<times> (string \<times> int) list"
type_synonym result_row = "(string \<times> int) list"

text \<open>
  \<^verbatim>\<open>column > :p\<close> with a text bound to the parameter: the text is read as a number when
  it spells one, and a text that spells none is greater than every integer.
\<close>

definition sql_gt :: "int \<Rightarrow> string \<Rightarrow> bool" where
  "sql_gt x v = (case py_int v of None \<Rightarrow> False | Some k \<Rightarrow> x > k)"

text \<open>
  Whether a row satisfies a clause; \<open>None\<close> when the engine raises instead: a parameter
  without a binding, a column the table does not have, or a clause of the filter builder,
  which this model does not read.
\<close>

fun clause_holds :: "str_dict \<Rightarrow> stored_row \<Rightarrow> where_clause \<Rightarrow> bool option" where
  "clause_holds params r (FilterClause s) = None"
| "clause_holds params r (RowidAfter n) =
     (case map_of params (''p'' @ str_nat n) of
        None \<Rightarrow> None
      | Some v \<Rightarrow> Some (sql_gt (fst r) v))"
| "clause_holds params r (PkAfter pk n) =
     (case map_of (snd r) pk of
        None \<Rightarrow> None
      | Some x \<Rightarrow>
          (case map_of params (''p'' @ str_nat n) of
             None \<Rightarrow> None
           | Some v \<Rightarrow> Some (sql_gt x v)))"

fun row_selected :: "str_dict \<Rightarrow> where_clause list \<Rightarrow> stored_row \<Rightarrow> bool option" where
  "row_selected params [] r = Some True"
| "row_selected params (w # ws) r =
     (case clause_holds params r w of
        None \<Rightarrow> None
      | Some b \<Rightarrow> (case row_selected params ws r of None \<Rightarrow> None | Some bs \<Rightarrow> Some (b \<and> bs)))"

fun select_where :: "str_dict \<Rightarrow> where_clause list \<Rightarrow> stored_row list \<Rightarrow> stored_row list option" where
  "select_where params ws [] = Some []"
| "select_where params ws (r # rs) =
     (case row_selected params ws r of
        None \<Rightarrow> None
      | Some b \<Rightarrow>
          (case select_where params ws rs of
             None \<Rightarrow> None
           | Some kept \<Rightarrow> Some (if b then r # kept else kept)))"

text \<open>
  \<^verbatim>\<open>order by\<close> on the named columns, ascending and stable: the key of a row, the
  lexicographic order of keys (a missing value first, as \<^verbatim>\<open>NULL\<close>), and insertion sort.
\<close>

definition order_key :: "string list \<Rightarrow> stored_row \<Rightarrow> int option list" where
  "order_key cols r =
     map (\<lambda>c. if c = ''rowid'' then Some (fst r) else map_of (snd r) c) cols"

fun key_less :: "int option list \<Rightarrow> int option list \<Rightarrow> bool" where
  "key_less [] ys = False"
| "key_less (x # xs) [] = False"
| "key_less (x # xs) (y # ys) =
     (case x of
        None \<Rightarrow> (case y of None \<Rightarrow> key_less xs ys | Some b \<Rightarrow> True)
      | Some a \<Rightarrow> (case y of None \<Rightarrow> False | Some b \<Rightarrow> a < b \<or> (a = b \<and> key_less xs ys)))"

fun insert_ordered :: "string list \<Rightarrow> stored_row \<Rightarrow> stored_row list \<Rightarrow> stored_row list" where
  "insert_ordered cols r [] = [r]"
| "insert_ordered cols r (s # ss) =
     (if key_less (order_key cols s) (order_key cols r) then s # insert_ordered cols r ss
      else r # s # ss)"

fun order_rows :: "string list \<Rightarrow> stored_row list \<Rightarrow> stored_row list" where
  "order_rows cols [] = []"
| "order_rows cols (r # rs) = insert_ordered cols r (order_rows cols rs)"

text \<open>
  The engine on the table \<open>stored\<close> with the columns \<open>columns\<close>: the rows that
  satisfy the clauses, ordered, from the offset on (a negative offset counts as none), at
  most \<open>q_limit\<close> of them. The time limit never strikes.
\<close>

definition sqlite_select ::
  "string list \<Rightarrow> stored_row list \<Rightarrow> int \<Rightarrow> sql_query \<Rightarrow> str_dict \<Rightarrow>
   error + (result_row list \<times> string list)"
where
  "sqlite_select columns stored time_limit q params =
     (case select_where params (q_where q) stored of
        None \<Rightarrow> Inl (OperationalError ''statement rejected'')
      | Some kept \<Rightarrow>
          (let ordered = order_rows (q_order_by q) kept;
               skipped = (case q_offset q of None \<Rightarrow> ordered | Some n \<Rightarrow> drop (nat n) ordered);
               limited = take (q_limit q) skipped;
               with_rowid = (q_select q = ''rowid, *'')
           in Inr (map (\<lambda>r. if with_rowid then (''rowid'', fst r) # snd r else snd r) limited,
                   if with_rowid then ''rowid'' # columns else columns)))"

text \<open>
  Modelled from the spec: \<^verbatim>\<open>path_from_row_pks\<close> and \<^verbatim>\<open>compound_pks_from_path\<close> of
  \<^verbatim>\<open>datasette/utils.py\<close>, which is not part of the sources. The specification has the
  cursor encode ``the primary-key tuple of the last row of the current page,
  percent/comma-escaped for compound keys'', ``the rowid of the last row'' for a table
  without a primary key, and be read back ``percent-decoded, comma-joined in declared key
  order''. On integers the percent-escape changes nothing, so the path is the decimal
  values joined by commas. A key the row does not have is written as the empty string.
\<close>

definition spec_path_from_row_pks :: "result_row \<Rightarrow> string list \<Rightarrow> bool \<Rightarrow> string" where
  "spec_path_from_row_pks row pks use_rowid =
     (let cell = (\<lambda>c. case map_of row c of None \<Rightarrow> [] | Some x \<Rightarrow> str_int x)
      in if use_rowid then cell ''rowid'' else str_join '','' (map cell pks))"

definition spec_compound_pks_from_path :: "string \<Rightarrow> string list" where
  "spec_compound_pks_from_path path = split_on CHR '','' path"

text \<open>
  The functions of \<^verbatim>\<open>utils\<close> for such a table: the two above, a filter builder that is
  never called on a request without filters, and the table name in brackets.
\<close>

definition spec_utils :: "result_row utils" where
  "spec_utils =
     \<lparr>build_where_clauses = (\<lambda>other_args. ([], [])),
      compound_pks_from_path = spec_compound_pks_from_path,
      path_from_row_pks = spec_path_from_row_pks,
      escape_sqlite_table_name = (\<lambda>t. ''['' @ t @ '']'')\<rparr>"

section \<open>Properties of the executor\<close>

text \<open>
  Claim C2. In \<open>execute\<close> with truncation in force (\<^verbatim>\<open>truncate=True\<close> and a non-zero
  \<^verbatim>\<open>max_returned_rows\<close>), when the statement runs: at most \<open>max_returned_rows + 1\<close> rows
  are read from the cursor; the triple returned holds the first \<open>max_returned_rows\<close>
  rows of the result, so never more than that many; its flag is true exactly when the
  statement produces more than \<open>max_returned_rows\<close> rows; and when it is true the rows
  returned are the rows read without the last one, the probe.
\<close>

theorem execute_truncation:
  assumes "0 < max_returned_rows ds"
    and "engine (time_limit_ms ds custom) sql params = Inr (cursor, description)"
  shows "length (fetched ds True cursor) \<le> max_returned_rows ds + 1
       \<and> execute ds engine sql params True custom =
           Inr (RowsTruncated (take (max_returned_rows ds) cursor)
                  (max_returned_rows ds < length cursor) description)
       \<and> length (take (max_returned_rows ds) cursor) \<le> max_returned_rows ds
       \<and> (max_returned_rows ds < length cursor \<longrightarrow>
            take (max_returned_rows ds) cursor = butlast (fetched ds True cursor))"
proof -
  let ?m = "max_returned_rows ds"
  have f: "fetched ds True cursor = take (?m + 1) cursor"
    using assms(1) by (simp add: fetched_def fetchmany_def)
  have len: "length (fetched ds True cursor) \<le> ?m + 1"
    by (simp add: f)
  have flag: "(?m < length (take (?m + 1) cursor)) = (?m < length cursor)"
    by auto
  have ex: "execute ds engine sql params True custom =
      Inr (RowsTruncated (take ?m cursor) (?m < length cursor) description)"
    using assms by (simp add: execute_def f flag Let_def min_def)
  have probe: "?m < length cursor \<longrightarrow> take ?m cursor = butlast (fetched ds True cursor)"
    by (simp add: f butlast_take)
  show ?thesis using len ex probe by simp
qed

theorem execute_truncation_witness:
  "0 < max_returned_rows \<lparr>page_size = 100, max_returned_rows = 2, sql_time_limit_ms = 1000\<rparr>
   \<and> execute \<lparr>page_size = 100, max_returned_rows = 2, sql_time_limit_ms = 1000\<rparr>
        (\<lambda>t s p. Inr ([1, 2, 3, 4 :: nat], [''n''])) ''select n from t'' [] True None
      = Inr (RowsTruncated [1, 2] True [''n''])"
  using execute_truncation
    [of "\<lparr>page_size = 100, max_returned_rows = 2, sql_time_limit_ms = 1000\<rparr>"
        "\<lambda>t s p. Inr ([1, 2, 3, 4 :: nat], [''n''])" None "''select n from t''" "[]"
        "[1, 2, 3, 4]" "[''n'']"]
  by simp

text \<open>
  Claim C3 fails for an override of zero: with the default limit 1000 and the override 0
  the limit in force is 1000, not the minimum 0.
\<close>

theorem time_limit_zero_override_counterexample:
  "time_limit_ms \<lparr>page_size = 100, max_returned_rows = 1000, sql_time_limit_ms = 1000\<rparr> (Some 0)
     = 1000
   \<and> min (0 :: int) 1000 = 0"
  by (simp add: time_limit_ms_def)

text \<open>
  Claim C3, amended. An override other than zero sets the limit to the minimum of the
  override and \<^verbatim>\<open>sql_time_limit_ms\<close>, so a smaller one is used as it is; the override
  zero and a missing override leave \<^verbatim>\<open>sql_time_limit_ms\<close> in force; and no override
  makes the limit larger than \<^verbatim>\<open>sql_time_limit_ms\<close>.
\<close>

theorem time_limit_override:
  "(c \<noteq> 0 \<longrightarrow> time_limit_ms ds (Some c) = min c (sql_time_limit_ms ds))
   \<and> (c \<noteq> 0 \<and> c < sql_time_limit_ms ds \<longrightarrow> time_limit_ms ds (Some c) = c)
   \<and> time_limit_ms ds (Some 0) = sql_time_limit_ms ds
   \<and> time_limit_ms ds None = sql_time_limit_ms ds
   \<and> time_limit_ms ds custom \<le> sql_time_limit_ms ds"
  by (simp add: time_limit_ms_def min_def split: option.splits)

theorem time_limit_override_witness:
  "time_limit_ms \<lparr>page_size = 100, max_returned_rows = 1000, sql_time_limit_ms = 1000\<rparr> (Some 250)
     = 250
   \<and> time_limit_ms \<lparr>page_size = 100, max_returned_rows = 1000, sql_time_limit_ms = 1000\<rparr>
       (Some 5000) \<le> 1000"
  using time_limit_override
    [of 250 "\<lparr>page_size = 100, max_returned_rows = 1000, sql_time_limit_ms = 1000\<rparr>" "Some 5000"]
  by simp

section \<open>Properties of the name resolution\<close>

lemma rsplit1_append:
  assumes "sep \<notin> set h"
  shows "rsplit1 sep (n @ sep # h) = (n, h)"
proof -
  have t: "takeWhile (\<lambda>c. c \<noteq> sep) (rev h @ sep # rev n) = rev h"
    using assms by (intro takeWhile_append2[THEN trans]) auto
  have d: "dropWhile (\<lambda>c. c \<noteq> sep) (rev h @ sep # rev n) = sep # rev n"
    using assms by (intro dropWhile_append2[THEN trans]) auto
  show ?thesis by (simp add: rsplit1_def t d)
qed

lemma rsplit1_concat:
  assumes "sep \<in> set s"
  shows "fst (rsplit1 sep s) @ sep # snd (rsplit1 sep s) = s"
proof -
  let ?P = "\<lambda>c. c \<noteq> sep"
  have ne: "dropWhile ?P (rev s) \<noteq> []"
    using assms by (simp add: dropWhile_eq_Nil_conv)
  have hd: "hd (dropWhile ?P (rev s)) = sep"
    using hd_dropWhile[OF ne] by simp
  have "rev s = takeWhile ?P (rev s) @ dropWhile ?P (rev s)"
    by simp
  also have "\<dots> = takeWhile ?P (rev s) @ sep # tl (dropWhile ?P (rev s))"
    using ne hd by (metis list.collapse)
  finally have "rev (rev s) = rev (takeWhile ?P (rev s) @ sep # tl (dropWhile ?P (rev s)))"
    by simp
  then show ?thesis by (simp add: rsplit1_def)
qed

lemma resolve_db_name_result:
  assumes "resolve_db_name databases db_name kwargs = Inr (name, expected, target)"
  shows "(\<exists>info. databases name = Some info \<and> expected = take 7 (info_hash info))
       \<and> target =
           (if db_name = name @ ''-'' @ expected then None
            else Some (''/'' @ name @ ''-'' @ expected
                   @ (case kw_table kwargs of None \<Rightarrow> [] | Some t \<Rightarrow> ''/'' @ t)
                   @ (case kw_pk_path kwargs of None \<Rightarrow> [] | Some p \<Rightarrow> ''/'' @ p)
                   @ (case kw_as_json kwargs of None \<Rightarrow> [] | Some j \<Rightarrow> j)
                   @ (case kw_as_db kwargs of None \<Rightarrow> [] | Some d \<Rightarrow> d)))"
proof (cases "CHR ''-'' \<in> set db_name \<and> databases (fst (rsplit1 CHR ''-'' db_name)) \<noteq> None")
  case True
  obtain n h where nh: "rsplit1 CHR ''-'' db_name = (n, h)"
    by (cases "rsplit1 CHR ''-'' db_name")
  from True nh obtain info where info: "databases n = Some info" by auto
  have whole: "db_name = n @ CHR ''-'' # h"
    using rsplit1_concat[of "CHR ''-''" db_name] True nh by simp
  have eq: "(db_name = n @ ''-'' @ take 7 (info_hash info)) = (h = take 7 (info_hash info))"
    unfolding whole by simp
  show ?thesis
    using assms True nh info eq
    by (auto simp: resolve_db_name_def Let_def split: option.splits if_splits)
next
  case False
  have neq: "\<And>x. db_name \<noteq> db_name @ ''-'' @ x"
    by simp
  show ?thesis
    using assms False neq
    by (auto simp: resolve_db_name_def Let_def split: option.splits if_splits prod.splits)
qed

text \<open>
  Claim C4. A segment \<open>n-h\<close> whose name \<open>n\<close> is registered and whose \<open>h\<close> (without a
  hyphen) is not the first seven characters of the digest, and a segment that is a
  registered name without a hyphen, both resolve to the name, the current prefix and the
  redirect target \<^verbatim>\<open>/name-prefix\<close> followed by the table, the row path and the format
  suffixes of the request. An exception is raised exactly when neither the whole segment
  nor (for a segment with a hyphen) the part before its last hyphen is a registered name,
  and it is \<^verbatim>\<open>NotFound\<close>. Every other segment resolves to a registered name and the
  current prefix of its digest, with no redirect when the segment is \<^verbatim>\<open>name-prefix\<close>
  itself and with that redirect target in every other case.
\<close>

theorem resolve_db_name_stale_hash_redirects:
  "(databases n = Some info \<and> CHR ''-'' \<notin> set h \<and> h \<noteq> take 7 (info_hash info) \<longrightarrow>
      resolve_db_name databases (n @ ''-'' @ h) kwargs =
        Inr (n, take 7 (info_hash info),
             Some (''/'' @ n @ ''-'' @ take 7 (info_hash info)
                   @ (case kw_table kwargs of None \<Rightarrow> [] | Some t \<Rightarrow> ''/'' @ t)
                   @ (case kw_pk_path kwargs of None \<Rightarrow> [] | Some p \<Rightarrow> ''/'' @ p)
                   @ (case kw_as_json kwargs of None \<Rightarrow> [] | Some j \<Rightarrow> j)
                   @ (case kw_as_db kwargs of None \<Rightarrow> [] | Some d \<Rightarrow> d))))
   \<and> (databases n = Some info \<and> CHR ''-'' \<notin> set n \<longrightarrow>
      resolve_db_name databases n kwargs =
        Inr (n, take 7 (info_hash info),
             Some (''/'' @ n @ ''-'' @ take 7 (info_hash info)
                   @ (case kw_table kwargs of None \<Rightarrow> [] | Some t \<Rightarrow> ''/'' @ t)
                   @ (case kw_pk_path kwargs of None \<Rightarrow> [] | Some p \<Rightarrow> ''/'' @ p)
                   @ (case kw_as_json kwargs of None \<Rightarrow> [] | Some j \<Rightarrow> j)
                   @ (case kw_as_db kwargs of None \<Rightarrow> [] | Some d \<Rightarrow> d))))
   \<and> ((\<exists>e. resolve_db_name databases db_name kwargs = Inl e) \<longleftrightarrow>
        (databases db_name = None
         \<and> (CHR ''-'' \<in> set db_name \<longrightarrow> databases (fst (rsplit1 CHR ''-'' db_name)) = None)))
   \<and> (resolve_db_name databases db_name kwargs = Inl e \<longrightarrow>
        (\<exists>name. e = NotFound (''Database not found: '' @ name)))
   \<and> (resolve_db_name databases db_name kwargs = Inr (name, expected, target) \<longrightarrow>
        (\<exists>info. databases name = Some info \<and> expected = take 7 (info_hash info))
        \<and> target =
            (if db_name = name @ ''-'' @ expected then None
             else Some (''/'' @ name @ ''-'' @ expected
                    @ (case kw_table kwargs of None \<Rightarrow> [] | Some t \<Rightarrow> ''/'' @ t)
                    @ (case kw_pk_path kwargs of None \<Rightarrow> [] | Some p \<Rightarrow> ''/'' @ p)
                    @ (case kw_as_json kwargs of None \<Rightarrow> [] | Some j \<Rightarrow> j)
                    @ (case kw_as_db kwargs of None \<Rightarrow> [] | Some d \<Rightarrow> d))))"
proof -
  have stale: "databases n = Some info \<and> CHR ''-'' \<notin> set h \<and> h \<noteq> take 7 (info_hash info) \<longrightarrow>
      resolve_db_name databases (n @ ''-'' @ h) kwargs =
        Inr (n, take 7 (info_hash info),
             Some (''/'' @ n @ ''-'' @ take 7 (info_hash info)
                   @ (case kw_table kwargs of None \<Rightarrow> [] | Some t \<Rightarrow> ''/'' @ t)
                   @ (case kw_pk_path kwargs of None \<Rightarrow> [] | Some p \<Rightarrow> ''/'' @ p)
                   @ (case kw_as_json kwargs of None \<Rightarrow> [] | Some j \<Rightarrow> j)
                   @ (case kw_as_db kwargs of None \<Rightarrow> [] | Some d \<Rightarrow> d)))"
  proof (intro impI, elim conjE)
    assume a: "databases n = Some info" "CHR ''-'' \<notin> set h" "h \<noteq> take 7 (info_hash info)"
    have r: "rsplit1 CHR ''-'' (n @ CHR ''-'' # h) = (n, h)"
      using a(2) by (rule rsplit1_append)
    show "resolve_db_name databases (n @ ''-'' @ h) kwargs =
        Inr (n, take 7 (info_hash info),
             Some (''/'' @ n @ ''-'' @ take 7 (info_hash info)
                   @ (case kw_table kwargs of None \<Rightarrow> [] | Some t \<Rightarrow> ''/'' @ t)
                   @ (case kw_pk_path kwargs of None \<Rightarrow> [] | Some p \<Rightarrow> ''/'' @ p)
                   @ (case kw_as_json kwargs of None \<Rightarrow> [] | Some j \<Rightarrow> j)
                   @ (case kw_as_db kwargs of None \<Rightarrow> [] | Some d \<Rightarrow> d)))"
      using a by (auto simp: resolve_db_name_def r Let_def split: option.splits)
  qed
  have absent: "databases n = Some info \<and> CHR ''-'' \<notin> set n \<longrightarrow>
      resolve_db_name databases n kwargs =
        Inr (n, take 7 (info_hash info),
             Some (''/'' @ n @ ''-'' @ take 7 (info_hash info)
                   @ (case kw_table kwargs of None \<Rightarrow> [] | Some t \<Rightarrow> ''/'' @ t)
                   @ (case kw_pk_path kwargs of None \<Rightarrow> [] | Some p \<Rightarrow> ''/'' @ p)
                   @ (case kw_as_json kwargs of None \<Rightarrow> [] | Some j \<Rightarrow> j)
                   @ (case kw_as_db kwargs of None \<Rightarrow> [] | Some d \<Rightarrow> d)))"
    by (auto simp: resolve_db_name_def Let_def split: option.splits)
  have unknown: "(\<exists>e. resolve_db_name databases db_name kwargs = Inl e) \<longleftrightarrow>
        (databases db_name = None
         \<and> (CHR ''-'' \<in> set db_name \<longrightarrow> databases (fst (rsplit1 CHR ''-'' db_name)) = None))"
    by (auto simp: resolve_db_name_def Let_def split: option.splits prod.splits if_splits)
  have notfound: "resolve_db_name databases db_name kwargs = Inl e \<longrightarrow>
        (\<exists>name. e = NotFound (''Database not found: '' @ name))"
    by (auto simp: resolve_db_name_def Let_def split: option.splits prod.splits if_splits)
  have result: "resolve_db_name databases db_name kwargs = Inr (name, expected, target) \<longrightarrow>
        (\<exists>info. databases name = Some info \<and> expected = take 7 (info_hash info))
        \<and> target =
            (if db_name = name @ ''-'' @ expected then None
             else Some (''/'' @ name @ ''-'' @ expected
                    @ (case kw_table kwargs of None \<Rightarrow> [] | Some t \<Rightarrow> ''/'' @ t)
                    @ (case kw_pk_path kwargs of None \<Rightarrow> [] | Some p \<Rightarrow> ''/'' @ p)
                    @ (case kw_as_json kwargs of None \<Rightarrow> [] | Some j \<Rightarrow> j)
                    @ (case kw_as_db kwargs of None \<Rightarrow> [] | Some d \<Rightarrow> d)))"
    using resolve_db_name_result[of databases db_name kwargs name expected target] by blast
  show ?thesis using stale absent unknown notfound result by blast
qed

theorem resolve_db_name_stale_hash_redirects_witness:
  "resolve_db_name [''fixtures'' \<mapsto> \<lparr>info_hash = ''a1b2c3d4e5f6'', info_file = ''fixtures.db'',
                                     info_tables = []\<rparr>]
     (''fixtures'' @ ''-'' @ ''0000000'')
     \<lparr>kw_table = Some ''t'', kw_pk_path = Some ''1,2'', kw_as_json = Some ''.json'',
      kw_as_db = None\<rparr>
   = Inr (''fixtures'', ''a1b2c3d'', Some ''/fixtures-a1b2c3d/t/1,2.json'')
   \<and> (\<exists>e. resolve_db_name [''fixtures'' \<mapsto> \<lparr>info_hash = ''a1b2c3d4e5f6'',
                info_file = ''fixtures.db'', info_tables = []\<rparr>]
            ''other''
            \<lparr>kw_table = Some ''t'', kw_pk_path = Some ''1,2'', kw_as_json = Some ''.json'',
             kw_as_db = None\<rparr> = Inl e)"
  using resolve_db_name_stale_hash_redirects
    [of "[''fixtures'' \<mapsto> \<lparr>info_hash = ''a1b2c3d4e5f6'', info_file = ''fixtures.db'',
                             info_tables = []\<rparr>]"
        "''fixtures''"
        "\<lparr>info_hash = ''a1b2c3d4e5f6'', info_file = ''fixtures.db'', info_tables = []\<rparr>"
        "''0000000''"
        "\<lparr>kw_table = Some ''t'', kw_pk_path = Some ''1,2'', kw_as_json = Some ''.json'',
          kw_as_db = None\<rparr>"
        "''other''"]
  by simp



section \<open>Properties of the argument split\<close>





section \<open>Properties of custom SQL\<close>

text \<open>
  Claim C7 at the statement \<^verbatim>\<open>select :p1\<close>: the scan of the source finds the name
  \<^verbatim>\<open>p\<close> where the identifier after the colon is \<^verbatim>\<open>p1\<close>, so with no parameter from the
  caller the parameters passed on bind \<^verbatim>\<open>p\<close> and not \<^verbatim>\<open>p1\<close>.
\<close>

theorem named_parameter_digits_dropped:
  "re_named_parameter_findall ''select :p1'' = [''p'']
   \<and> spec_named_parameters ''select :p1'' = [''p1'']
   \<and> set_missing ''select :p1'' [] = [(''p'', '''')]
   \<and> map_of (set_missing ''select :p1'' []) ''p1'' = None"
  by code_simp

lemma set_missing_fold:
  "map_of (fold (\<lambda>named_parameter ps.
             if map_of ps named_parameter = None then AList.update named_parameter '''' ps
             else ps) names params) k
   = (if k \<in> set names \<and> map_of params k = None then Some '''' else map_of params k)"
  by (induction names arbitrary: params) (auto simp: AList.update_conv')

lemma named_parameter_values_fold:
  "map_of (fold (\<lambda>named_parameter d. AList.update named_parameter (g named_parameter) d)
             names acc) k
   = (if k \<in> set names then Some (g k) else map_of acc k)"
  by (induction names arbitrary: acc) (auto simp: AList.update_conv')

lemma custom_sql_engine_call:
  assumes "map_of raw ''sql'' = Some sql"
  shows "custom_sql ds engine validate_sql_select raw =
         custom_sql ds
           (\<lambda>t s p. if s = sql \<and> p = set_missing sql (AList.delete ''sql'' raw)
                    then engine t s p else Inl (OperationalError ''not called''))
           validate_sql_select raw"
  using assms
  by (simp add: custom_sql_def execute_def Let_def split: option.splits sum.splits)

text \<open>
  What lines 331-341 of \<open>custom_sql\<close> do for the names the scan finds, on a request with
  the statement \<open>sql\<close> and with \<open>params\<close> the caller's other arguments: every such name
  is bound in the parameters after line 341; one the caller did not give is bound to the
  empty string there and in \<^verbatim>\<open>named_parameter_values\<close>, one the caller gave keeps its
  value; the engine is called with the statement and these parameters only (replacing the
  engine at every other argument changes nothing); and the dictionary returned echoes
  both.
\<close>

theorem custom_sql_missing_parameters:
  assumes "map_of raw ''sql'' = Some sql"
    and "params = AList.delete ''sql'' raw"
  shows "(\<forall>name \<in> set (re_named_parameter_findall sql).
            map_of (set_missing sql params) name \<noteq> None
          \<and> (map_of params name = None \<longrightarrow>
               map_of (set_missing sql params) name = Some ''''
             \<and> map_of (named_parameter_values sql params) name = Some '''')
          \<and> (\<forall>v. map_of params name = Some v \<longrightarrow>
               map_of (set_missing sql params) name = Some v
             \<and> map_of (named_parameter_values sql params) name = Some v))
       \<and> custom_sql ds engine validate_sql_select raw =
           custom_sql ds
             (\<lambda>t s p. if s = sql \<and> p = set_missing sql params
                      then engine t s p else Inl (OperationalError ''not called''))
             validate_sql_select raw
       \<and> (\<forall>d. custom_sql ds engine validate_sql_select raw = Inr d \<longrightarrow>
            cs_query_sql d = sql \<and> cs_query_params d = set_missing sql params
          \<and> cs_named_parameter_values d = named_parameter_values sql params)"
proof -
  have bound: "\<forall>name \<in> set (re_named_parameter_findall sql).
            map_of (set_missing sql params) name \<noteq> None
          \<and> (map_of params name = None \<longrightarrow>
               map_of (set_missing sql params) name = Some ''''
             \<and> map_of (named_parameter_values sql params) name = Some '''')
          \<and> (\<forall>v. map_of params name = Some v \<longrightarrow>
               map_of (set_missing sql params) name = Some v
             \<and> map_of (named_parameter_values sql params) name = Some v)"
    by (auto simp: set_missing_def named_parameter_values_def set_missing_fold
        named_parameter_values_fold)
  have call: "custom_sql ds engine validate_sql_select raw =
           custom_sql ds
             (\<lambda>t s p. if s = sql \<and> p = set_missing sql params
                      then engine t s p else Inl (OperationalError ''not called''))
             validate_sql_select raw"
    unfolding assms(2) using assms(1) by (rule custom_sql_engine_call)
  have echo: "\<forall>d. custom_sql ds engine validate_sql_select raw = Inr d \<longrightarrow>
            cs_query_sql d = sql \<and> cs_query_params d = set_missing sql params
          \<and> cs_named_parameter_values d = named_parameter_values sql params"
    using assms
    by (auto simp: custom_sql_def Let_def split: option.splits sum.splits executed.splits)
  show ?thesis using bound call echo by blast
qed

theorem custom_sql_missing_parameters_witness:
  "custom_sql \<lparr>page_size = 100, max_returned_rows = 1000, sql_time_limit_ms = 1000\<rparr>
     (\<lambda>t s p. if map_of p ''name'' = None then Inl (OperationalError ''no binding'')
              else Inr ([[1 :: int]], [''n'']))
     (\<lambda>s. None)
     [(''sql'', ''select n from t where name = :name and age = :age''), (''age'', ''3'')]
   = Inr \<lparr>cs_rows = [[1]], cs_truncated = False, cs_columns = [''n''],
          cs_query_sql = ''select n from t where name = :name and age = :age'',
          cs_query_params = [(''age'', ''3''), (''name'', '''')],
          cs_named_parameter_values = [(''name'', ''''), (''age'', ''3'')]\<rparr>
   \<and> map_of (set_missing ''select n from t where name = :name and age = :age''
               [(''age'', ''3'')]) ''name'' = Some ''''"
proof -
  have h: "map_of [(''sql'', ''select n from t where name = :name and age = :age''),
                   (''age'', ''3'')] ''sql''
           = Some ''select n from t where name = :name and age = :age''"
    by simp
  have p: "[(''age'', ''3'')] = AList.delete ''sql''
            [(''sql'', ''select n from t where name = :name and age = :age''), (''age'', ''3'')]"
    by code_simp
  have names: "''name'' \<in> set (re_named_parameter_findall
                 ''select n from t where name = :name and age = :age'')"
    by code_simp
  have absent: "map_of [(''age'', ''3'')] ''name'' = None"
    by simp
  from custom_sql_missing_parameters[OF h p] names absent
  have b: "map_of (set_missing ''select n from t where name = :name and age = :age''
               [(''age'', ''3'')]) ''name'' = Some ''''"
    by blast
  have run: "custom_sql \<lparr>page_size = 100, max_returned_rows = 1000, sql_time_limit_ms = 1000\<rparr>
     (\<lambda>t s p. if map_of p ''name'' = None then Inl (OperationalError ''no binding'')
              else Inr ([[1 :: int]], [''n'']))
     (\<lambda>s. None)
     [(''sql'', ''select n from t where name = :name and age = :age''), (''age'', ''3'')]
   = Inr \<lparr>cs_rows = [[1]], cs_truncated = False, cs_columns = [''n''],
          cs_query_sql = ''select n from t where name = :name and age = :age'',
          cs_query_params = [(''age'', ''3''), (''name'', '''')],
          cs_named_parameter_values = [(''name'', ''''), (''age'', ''3'')]\<rparr>"
    by code_simp
  show ?thesis using run b by simp
qed

text \<open>
  Claim C10 at the statement \<^verbatim>\<open>select :p1\<close> with no parameter from the caller: the
  scan finds \<^verbatim>\<open>p\<close>, so the loop of lines 339-341 binds \<^verbatim>\<open>p\<close> to the empty string and
  leaves the placeholder \<^verbatim>\<open>p1\<close> of the statement without a binding, and the execution
  raises for the missing binding. At \<^verbatim>\<open>select :p\<close> the placeholder is found, bound to
  the empty string and echoed, and the statement runs.
\<close>

theorem custom_sql_unbound_placeholder:
  "custom_sql \<lparr>page_size = 100, max_returned_rows = 1000, sql_time_limit_ms = 1000\<rparr>
     (binding_engine ([[1 :: int]], [''n''])) (\<lambda>s. None) [(''sql'', ''select :p1'')]
   = Inl (ProgrammingError ''You did not supply a value for binding p1'')
   \<and> re_named_parameter_findall ''select :p1'' = [''p'']
   \<and> set_missing ''select :p1'' (AList.delete ''sql'' [(''sql'', ''select :p1'')])
       = [(''p'', [])]
   \<and> custom_sql \<lparr>page_size = 100, max_returned_rows = 1000, sql_time_limit_ms = 1000\<rparr>
     (binding_engine ([[1 :: int]], [''n''])) (\<lambda>s. None) [(''sql'', ''select :p'')]
   = Inr \<lparr>cs_rows = [[1]], cs_truncated = False, cs_columns = [''n''],
          cs_query_sql = ''select :p'', cs_query_params = [(''p'', [])],
          cs_named_parameter_values = [(''p'', [])]\<rparr>"
  by code_simp

section \<open>Properties of the registry\<close>

lemma update_fresh:
  "k \<notin> fst ` set al \<Longrightarrow> AList.update k v al = al @ [(k, v)]"
  by (induction al) auto

lemma inspect_files_distinct:
  assumes "\<forall>f \<in> set files. scan f = Inr (info_of f)"
    and "distinct (map stem files)"
    and "stem ` set files \<inter> fst ` set acc = {}"
  shows "inspect_files stem scan files acc = (None, acc @ map (\<lambda>f. (stem f, info_of f)) files)"
  using assms
proof (induction files arbitrary: acc)
  case Nil
  then show ?case by simp
next
  case (Cons f fs)
  have fresh: "stem f \<notin> fst ` set acc" using Cons.prems(3) by auto
  then have none: "map_of acc (stem f) = None" by (simp add: map_of_eq_None_iff)
  have scan: "scan f = Inr (info_of f)" using Cons.prems(1) by simp
  have upd: "AList.update (stem f) (info_of f) acc = acc @ [(stem f, info_of f)]"
    using fresh by (rule update_fresh)
  have rest: "\<forall>g \<in> set fs. scan g = Inr (info_of g)" "distinct (map stem fs)"
    using Cons.prems by simp_all
  have disj: "stem ` set fs \<inter> fst ` set (acc @ [(stem f, info_of f)]) = {}"
    using Cons.prems(2,3) by auto
  show ?case
    using Cons.IH[OF rest disj] none scan upd by simp
qed

lemma inspect_files_duplicate_raises:
  assumes "\<not> distinct (map stem files) \<or> (\<exists>f \<in> set files. stem f \<in> fst ` set acc)"
  shows "fst (inspect_files stem scan files acc) \<noteq> None"
  using assms
proof (induction files arbitrary: acc)
  case Nil
  then show ?case by simp
next
  case (Cons f fs)
  show ?case
  proof (cases "map_of acc (stem f) = None")
    case False
    then show ?thesis by (simp add: Let_def)
  next
    case True
    then have fresh: "stem f \<notin> fst ` set acc" by (simp add: map_of_eq_None_iff)
    show ?thesis
    proof (cases "scan f")
      case (Inl e)
      then show ?thesis using True by (simp add: Let_def)
    next
      case (Inr info)
      have "\<not> distinct (map stem fs)
            \<or> (\<exists>g \<in> set fs. stem g \<in> fst ` set (AList.update (stem f) info acc))"
        using Cons.prems fresh by (auto simp: AList.dom_update)
      from Cons.IH[OF this] show ?thesis using True Inr by (simp add: Let_def)
    qed
  qed
qed

lemma inspect_files_duplicate_named:
  assumes "\<forall>f \<in> set files. scan f = Inr (info_of f)"
    and "\<not> distinct (map stem files) \<or> (\<exists>f \<in> set files. stem f \<in> fst ` set acc)"
  shows "\<exists>n. fst (inspect_files stem scan files acc) = Some (MultipleFilesSameStem n)
           \<and> n \<in> stem ` set files
           \<and> (n \<in> fst ` set acc \<or> 2 \<le> count_list (map stem files) n)"
  using assms
proof (induction files arbitrary: acc)
  case Nil
  then show ?case by simp
next
  case (Cons f fs)
  show ?case
  proof (cases "map_of acc (stem f) = None")
    case False
    then have "stem f \<in> fst ` set acc" by (simp add: map_of_eq_None_iff)
    then show ?thesis using False by (auto simp: Let_def)
  next
    case True
    then have fresh: "stem f \<notin> fst ` set acc" by (simp add: map_of_eq_None_iff)
    have scan: "scan f = Inr (info_of f)" using Cons.prems(1) by simp
    have rest: "\<forall>g \<in> set fs. scan g = Inr (info_of g)" using Cons.prems(1) by simp
    have "\<not> distinct (map stem fs)
          \<or> (\<exists>g \<in> set fs. stem g \<in> fst ` set (AList.update (stem f) (info_of f) acc))"
      using Cons.prems(2) fresh by (auto simp: AList.dom_update)
    from Cons.IH[OF rest this] obtain n
      where n: "fst (inspect_files stem scan fs (AList.update (stem f) (info_of f) acc))
                  = Some (MultipleFilesSameStem n)"
        and mem: "n \<in> stem ` set fs"
        and dup: "n \<in> fst ` set (AList.update (stem f) (info_of f) acc)
                  \<or> 2 \<le> count_list (map stem fs) n"
      by blast
    have res: "fst (inspect_files stem scan (f # fs) acc) = Some (MultipleFilesSameStem n)"
      using True scan n by (simp add: Let_def)
    have one: "1 \<le> count_list (map stem fs) n"
      using mem by (metis One_nat_def Suc_leI count_list_0_iff gr0I set_map)
    have "n \<in> fst ` set acc \<or> 2 \<le> count_list (map stem (f # fs)) n"
      using dup one by (auto simp: AList.dom_update)
    then show ?thesis using res mem by auto
  qed
qed

lemma inspect_files_duplicate_start:
  assumes "\<forall>f \<in> set files. scan f = Inr (info_of f)"
    and "\<not> distinct (map stem files)"
  shows "\<exists>n. fst (inspect_files stem scan files []) = Some (MultipleFilesSameStem n)
           \<and> 2 \<le> count_list (map stem files) n"
  using inspect_files_duplicate_named[OF assms(1), of stem "[]"] assms(2)
  by auto

text \<open>
  Claim C8 fails on an object that already holds inspect data, such as the
  \<^verbatim>\<open>inspect_data\<close> given to the constructor: \<open>inspect\<close> returns it without looking at
  the files, here two files with the stem \<^verbatim>\<open>fixtures\<close>.
\<close>

theorem inspect_supplied_data_counterexample:
  "\<not> distinct (map path_stem [''one/fixtures.db'', ''two/fixtures.db''])
   \<and> fst (inspect path_stem
          (\<lambda>f. Inr \<lparr>info_hash = ''a1b2c3d4e5f6'', info_file = f, info_tables = []\<rparr>)
          \<lparr>ds_files = [''one/fixtures.db'', ''two/fixtures.db''],
           ds_inspect = Some [(''fixtures'', \<lparr>info_hash = ''a1b2c3d4e5f6'',
                                 info_file = ''one/fixtures.db'', info_tables = []\<rparr>)]\<rparr>)
     = Inr [(''fixtures'', \<lparr>info_hash = ''a1b2c3d4e5f6'', info_file = ''one/fixtures.db'',
                            info_tables = []\<rparr>)]"
  by code_simp

text \<open>
  Claim C8, amended. On a \<^verbatim>\<open>Datasette\<close> object that holds no inspect data yet, for
  every list of files: when two of them have the same stem, \<open>inspect\<close> raises and returns
  no mapping, and as long as the files are readable the exception is the one of line 623
  and names a stem that occurs at least twice; when the stems are distinct and the files
  readable, \<open>inspect\<close> returns one entry per file, in order, keyed by the stem. An object
  that holds inspect data returns it, unchanged, whatever the files are.
\<close>

theorem inspect_duplicate_stems:
  "(ds_inspect ds = None \<or> ds_inspect ds = Some [] \<longrightarrow>
      (\<not> distinct (map stem (ds_files ds)) \<longrightarrow>
            (\<exists>e. fst (inspect stem scan ds) = Inl e))
       \<and> (\<not> distinct (map stem (ds_files ds))
            \<and> (\<forall>f \<in> set (ds_files ds). scan f = Inr (info_of f)) \<longrightarrow>
            (\<exists>n. fst (inspect stem scan ds) = Inl (MultipleFilesSameStem n)
                \<and> 2 \<le> count_list (map stem (ds_files ds)) n))
       \<and> (distinct (map stem (ds_files ds))
            \<and> (\<forall>f \<in> set (ds_files ds). scan f = Inr (info_of f)) \<longrightarrow>
            fst (inspect stem scan ds) = Inr (map (\<lambda>f. (stem f, info_of f)) (ds_files ds))))
   \<and> (ds_inspect ds = Some (entry # entries) \<longrightarrow>
        inspect stem scan ds = (Inr (entry # entries), ds))"
proof -
  have cached: "ds_inspect ds = Some (entry # entries) \<longrightarrow>
        inspect stem scan ds = (Inr (entry # entries), ds)"
    by (simp add: inspect_def)
  have fresh: "ds_inspect ds = None \<or> ds_inspect ds = Some [] \<longrightarrow>
      (\<not> distinct (map stem (ds_files ds)) \<longrightarrow>
            (\<exists>e. fst (inspect stem scan ds) = Inl e))
       \<and> (\<not> distinct (map stem (ds_files ds))
            \<and> (\<forall>f \<in> set (ds_files ds). scan f = Inr (info_of f)) \<longrightarrow>
            (\<exists>n. fst (inspect stem scan ds) = Inl (MultipleFilesSameStem n)
                \<and> 2 \<le> count_list (map stem (ds_files ds)) n))
       \<and> (distinct (map stem (ds_files ds))
            \<and> (\<forall>f \<in> set (ds_files ds). scan f = Inr (info_of f)) \<longrightarrow>
            fst (inspect stem scan ds) = Inr (map (\<lambda>f. (stem f, info_of f)) (ds_files ds)))"
  proof
    assume empty: "ds_inspect ds = None \<or> ds_inspect ds = Some []"
    have unfold: "inspect stem scan ds =
        (case inspect_files stem scan (ds_files ds) [] of
           (None, found) \<Rightarrow> (Inr found, ds\<lparr>ds_inspect := Some found\<rparr>)
         | (Some e, found) \<Rightarrow> (Inl e, ds\<lparr>ds_inspect := Some found\<rparr>))"
      using empty by (auto simp: inspect_def)
    have raises: "\<not> distinct (map stem (ds_files ds)) \<longrightarrow>
              (\<exists>e. fst (inspect stem scan ds) = Inl e)"
    proof
      assume "\<not> distinct (map stem (ds_files ds))"
      then have "fst (inspect_files stem scan (ds_files ds) []) \<noteq> None"
        using inspect_files_duplicate_raises[of stem "ds_files ds" "[]" scan] by blast
      then show "\<exists>e. fst (inspect stem scan ds) = Inl e"
        unfolding unfold by (auto split: prod.splits option.splits)
    qed
    have named: "\<not> distinct (map stem (ds_files ds))
              \<and> (\<forall>f \<in> set (ds_files ds). scan f = Inr (info_of f)) \<longrightarrow>
              (\<exists>n. fst (inspect stem scan ds) = Inl (MultipleFilesSameStem n)
                  \<and> 2 \<le> count_list (map stem (ds_files ds)) n)"
    proof
      assume a: "\<not> distinct (map stem (ds_files ds))
              \<and> (\<forall>f \<in> set (ds_files ds). scan f = Inr (info_of f))"
      then have a1: "\<forall>f \<in> set (ds_files ds). scan f = Inr (info_of f)"
        and a2: "\<not> distinct (map stem (ds_files ds))"
        by simp_all
      from inspect_files_duplicate_start[OF a1 a2]
      have "\<exists>n. fst (inspect_files stem scan (ds_files ds) [])
                        = Some (MultipleFilesSameStem n)
             \<and> 2 \<le> count_list (map stem (ds_files ds)) n" .
      then show "\<exists>n. fst (inspect stem scan ds) = Inl (MultipleFilesSameStem n)
                  \<and> 2 \<le> count_list (map stem (ds_files ds)) n"
        unfolding unfold by (auto split: prod.splits option.splits)
    qed
    have entries: "distinct (map stem (ds_files ds))
              \<and> (\<forall>f \<in> set (ds_files ds). scan f = Inr (info_of f)) \<longrightarrow>
              fst (inspect stem scan ds) = Inr (map (\<lambda>f. (stem f, info_of f)) (ds_files ds))"
    proof
      assume a: "distinct (map stem (ds_files ds))
              \<and> (\<forall>f \<in> set (ds_files ds). scan f = Inr (info_of f))"
      then have "inspect_files stem scan (ds_files ds) []
                   = (None, [] @ map (\<lambda>f. (stem f, info_of f)) (ds_files ds))"
        using inspect_files_distinct[of "ds_files ds" scan info_of stem "[]"] by simp
      then show "fst (inspect stem scan ds) = Inr (map (\<lambda>f. (stem f, info_of f)) (ds_files ds))"
        unfolding unfold by simp
    qed
    show "(\<not> distinct (map stem (ds_files ds)) \<longrightarrow>
            (\<exists>e. fst (inspect stem scan ds) = Inl e))
       \<and> (\<not> distinct (map stem (ds_files ds))
            \<and> (\<forall>f \<in> set (ds_files ds). scan f = Inr (info_of f)) \<longrightarrow>
            (\<exists>n. fst (inspect stem scan ds) = Inl (MultipleFilesSameStem n)
                \<and> 2 \<le> count_list (map stem (ds_files ds)) n))
       \<and> (distinct (map stem (ds_files ds))
            \<and> (\<forall>f \<in> set (ds_files ds). scan f = Inr (info_of f)) \<longrightarrow>
            fst (inspect stem scan ds) = Inr (map (\<lambda>f. (stem f, info_of f)) (ds_files ds)))"
      by (rule conjI[OF raises conjI[OF named entries]])
  qed
  show ?thesis by (rule conjI[OF fresh cached])
qed

theorem inspect_duplicate_stems_witness:
  "fst (inspect path_stem
          (\<lambda>f. Inr \<lparr>info_hash = ''a1b2c3d4e5f6'', info_file = f, info_tables = []\<rparr>)
          \<lparr>ds_files = [''one/fixtures.db'', ''two/fixtures.db''], ds_inspect = None\<rparr>)
     = Inl (MultipleFilesSameStem ''fixtures'')
   \<and> fst (inspect path_stem
          (\<lambda>f. Inr \<lparr>info_hash = ''a1b2c3d4e5f6'', info_file = f, info_tables = []\<rparr>)
          \<lparr>ds_files = [''one/fixtures.db'', ''two/extra.db''], ds_inspect = None\<rparr>)
     = Inr [(''fixtures'', \<lparr>info_hash = ''a1b2c3d4e5f6'', info_file = ''one/fixtures.db'',
                            info_tables = []\<rparr>),
            (''extra'', \<lparr>info_hash = ''a1b2c3d4e5f6'', info_file = ''two/extra.db'',
                         info_tables = []\<rparr>)]"
proof -
  let ?scan = "\<lambda>f. Inr \<lparr>info_hash = ''a1b2c3d4e5f6'', info_file = f, info_tables = []\<rparr>"
  let ?info = "\<lambda>f. \<lparr>info_hash = ''a1b2c3d4e5f6'', info_file = f, info_tables = []\<rparr>"
  let ?dup = "\<lparr>ds_files = [''one/fixtures.db'', ''two/fixtures.db''], ds_inspect = None\<rparr>"
  let ?ok = "\<lparr>ds_files = [''one/fixtures.db'', ''two/extra.db''], ds_inspect = None\<rparr>"
  have s1: "path_stem ''one/fixtures.db'' = ''fixtures''" by code_simp
  have s2: "path_stem ''two/fixtures.db'' = ''fixtures''" by code_simp
  have s3: "path_stem ''two/extra.db'' = ''extra''" by code_simp
  have d: "\<not> distinct (map path_stem (ds_files ?dup))
           \<and> (\<forall>f \<in> set (ds_files ?dup). ?scan f = Inr (?info f))"
    by (simp add: s1 s2)
  have k: "distinct (map path_stem (ds_files ?ok))
           \<and> (\<forall>f \<in> set (ds_files ?ok). ?scan f = Inr (?info f))"
    by (simp add: s1 s3)
  have f1: "ds_inspect ?dup = None \<or> ds_inspect ?dup = Some []" by simp
  have f2: "ds_inspect ?ok = None \<or> ds_inspect ?ok = Some []" by simp
  note dup = inspect_duplicate_stems[of ?dup path_stem ?scan ?info, THEN conjunct1, THEN mp, OF f1]
  from dup[THEN conjunct2, THEN conjunct1, THEN mp, OF d]
  obtain n where n: "fst (inspect path_stem ?scan ?dup) = Inl (MultipleFilesSameStem n)"
    and c: "2 \<le> count_list (map path_stem (ds_files ?dup)) n"
    by (elim exE conjE)
  have "n = ''fixtures''"
    using c by (auto simp: s1 s2 split: if_splits)
  with n have first: "fst (inspect path_stem ?scan ?dup) = Inl (MultipleFilesSameStem ''fixtures'')"
    by simp
  note ok = inspect_duplicate_stems[of ?ok path_stem ?scan ?info, THEN conjunct1, THEN mp, OF f2]
  from ok[THEN conjunct2, THEN conjunct2, THEN mp, OF k]
  have "fst (inspect path_stem ?scan ?ok) = Inr (map (\<lambda>f. (path_stem f, ?info f)) (ds_files ?ok))" .
  then have second: "fst (inspect path_stem ?scan ?ok)
     = Inr [(''fixtures'', ?info ''one/fixtures.db''), (''extra'', ?info ''two/extra.db'')]"
    by (simp add: s1 s3)
  show ?thesis using first second by simp
qed

section \<open>Properties of the table view\<close>

lemma table_query_limit:
  assumes "table_query ds u table pks is_view args = Inr (sql, params, next)"
  shows "q_limit sql = page_size ds + 1"
  using assms
  by (auto simp: table_query_def Let_def split: sum.splits prod.splits)

lemma table_query_offset:
  assumes "table_query ds u table pks is_view args = Inr (sql, params, next)"
    and "is_view"
  shows "(case next of None \<Rightarrow> Some 0
          | Some nxt \<Rightarrow> if nxt = [] then Some 0 else py_int nxt)
         = Some (case q_offset sql of None \<Rightarrow> 0 | Some n \<Rightarrow> n)"
  using assms
  by (auto simp: table_query_def apply_next_def Let_def
      split: sum.splits prod.splits option.splits if_splits)

lemma render_sql_limit:
  "\<exists>pre. render_sql q =
     pre @ ''limit '' @ str_nat (q_limit q)
         @ (case q_offset q of None \<Rightarrow> [] | Some n \<Rightarrow> '' offset '' @ str_int n)"
proof -
  let ?where = "if q_where q \<noteq> []
             then ''where '' @ str_join '' and '' (map render_clause (q_where q)) @ '' ''
             else []"
  let ?order = "if str_join '', '' (q_order_by q) \<noteq> []
             then ''order by '' @ str_join '', '' (q_order_by q) @ '' '' else []"
  have "render_sql q =
     (''select '' @ q_select q @ '' from '' @ q_table_name q @ '' '' @ ?where @ ?order)
       @ ''limit '' @ str_nat (q_limit q)
       @ (case q_offset q of None \<Rightarrow> [] | Some n \<Rightarrow> '' offset '' @ str_int n)"
    by (simp add: render_sql_def Let_def)
  then show ?thesis by blast
qed

lemma next_page_more:
  assumes "0 < page_size ds" and "length rows = page_size ds + 1"
  shows "next_page ds u pks is_view use_rowid next rows =
     (if is_view then
        (case (case next of None \<Rightarrow> Some 0
               | Some nxt \<Rightarrow> if nxt = [] then Some 0 else py_int nxt) of
           None \<Rightarrow> Inl (ValueError (case next of None \<Rightarrow> [] | Some nxt \<Rightarrow> nxt))
         | Some n \<Rightarrow> Inr (Some (NextOffset (n + int (page_size ds)))))
      else Inr (Some (NextPath
             (path_from_row_pks u (last (take (page_size ds) rows)) pks use_rowid))))"
proof -
  have ne: "take (page_size ds) rows \<noteq> []"
    using assms by auto
  have "last (take (page_size ds) rows) = take (page_size ds) rows ! (page_size ds - 1)"
    using assms by (simp add: last_conv_nth[OF ne] min_def)
  also have "\<dots> = rows ! (page_size ds - 1)"
    using assms by simp
  finally have nth: "rows ! (page_size ds - Suc 0) = last (take (page_size ds) rows)"
    by simp
  show ?thesis
    using assms by (simp add: next_page_def nth)
qed

text \<open>
  Claim C5. For a page size of at least one: the statement built for the executor has
  the limit \<open>page_size + 1\<close>, and its text ends with that limit and the offset. When the
  executor returns rows for it, no more than the limit, the view returns the first
  \<open>page_size\<close> of them. If more than \<open>page_size\<close> came back, these are all rows but the
  last one, the probe, and the next cursor is made from the last row returned: the path
  of its primary keys or rowid for a table, and the offset of the request (zero without
  one) plus \<open>page_size\<close> for a view. If at most \<open>page_size\<close> came back there is no next
  cursor.
\<close>

theorem table_view_next_cursor:
  assumes "0 < page_size ds"
    and "table_query ds u table pks is_view args = Inr (sql, params, next)"
    and "raw_args args = Inr request_raw_args"
    and "custom_time_limit_of request_raw_args = Inr custom_time_limit"
    and "execute ds engine sql params True custom_time_limit =
           Inr (RowsTruncated rows truncated description)"
    and "length rows \<le> q_limit sql"
  shows "q_limit sql = page_size ds + 1
       \<and> (\<exists>pre. render_sql sql =
             pre @ ''limit '' @ str_nat (page_size ds + 1)
                 @ (case q_offset sql of None \<Rightarrow> [] | Some n \<Rightarrow> '' offset '' @ str_int n))
       \<and> (\<exists>d. table_view_data ds u engine table pks is_view args = Inr d
             \<and> td_query_sql d = render_sql sql
             \<and> td_rows d = take (page_size ds) rows
             \<and> (page_size ds < length rows \<longrightarrow>
                  td_rows d = butlast rows
                \<and> length (td_rows d) = page_size ds
                \<and> td_next_value d =
                    Some (if is_view
                          then NextOffset ((case q_offset sql of None \<Rightarrow> 0 | Some n \<Rightarrow> n)
                                           + int (page_size ds))
                          else NextPath (path_from_row_pks u (last (td_rows d)) pks
                                           (pks = [] \<and> \<not> is_view)))
                \<and> td_next d =
                    (case td_next_value d of
                       None \<Rightarrow> None
                     | Some v \<Rightarrow> if next_truthy v then Some (next_str v) else None))
             \<and> (length rows \<le> page_size ds \<longrightarrow>
                  td_next_value d = None \<and> td_next d = None))"
proof -
  have limit: "q_limit sql = page_size ds + 1"
    using assms(2) by (rule table_query_limit)
  have ending: "\<exists>pre. render_sql sql =
             pre @ ''limit '' @ str_nat (page_size ds + 1)
                 @ (case q_offset sql of None \<Rightarrow> [] | Some n \<Rightarrow> '' offset '' @ str_int n)"
    using render_sql_limit[of sql] limit by simp
  have view: "\<exists>d. table_view_data ds u engine table pks is_view args = Inr d
             \<and> td_query_sql d = render_sql sql
             \<and> td_rows d = take (page_size ds) rows
             \<and> (page_size ds < length rows \<longrightarrow>
                  td_rows d = butlast rows
                \<and> length (td_rows d) = page_size ds
                \<and> td_next_value d =
                    Some (if is_view
                          then NextOffset ((case q_offset sql of None \<Rightarrow> 0 | Some n \<Rightarrow> n)
                                           + int (page_size ds))
                          else NextPath (path_from_row_pks u (last (td_rows d)) pks
                                           (pks = [] \<and> \<not> is_view)))
                \<and> td_next d =
                    (case td_next_value d of
                       None \<Rightarrow> None
                     | Some v \<Rightarrow> if next_truthy v then Some (next_str v) else None))
             \<and> (length rows \<le> page_size ds \<longrightarrow>
                  td_next_value d = None \<and> td_next d = None)"
  proof (cases "page_size ds < length rows")
    case True
    with assms(6) limit have len: "length rows = page_size ds + 1" by simp
    have np: "next_page ds u pks is_view (pks = [] \<and> \<not> is_view) next rows =
        Inr (Some (if is_view
                   then NextOffset ((case q_offset sql of None \<Rightarrow> 0 | Some n \<Rightarrow> n)
                                    + int (page_size ds))
                   else NextPath (path_from_row_pks u (last (take (page_size ds) rows)) pks
                                    (pks = [] \<and> \<not> is_view))))"
    proof (cases is_view)
      case True
      from table_query_offset[OF assms(2) True] show ?thesis
        using True by (simp add: next_page_more[OF assms(1) len])
    next
      case False
      then show ?thesis by (simp add: next_page_more[OF assms(1) len])
    qed
    have bl: "take (page_size ds) rows = butlast rows"
      using len by (simp add: butlast_conv_take)
    show ?thesis
      using assms(2-5) np True len bl
      by (simp add: table_view_data_def Let_def)
  next
    case False
    then have np: "next_page ds u pks is_view (pks = [] \<and> \<not> is_view) next rows = Inr None"
      by (simp add: next_page_def)
    show ?thesis
      using assms(2-5) np False
      by (simp add: table_view_data_def Let_def)
  qed
  show ?thesis using limit ending view by blast
qed

theorem table_view_next_cursor_witness:
  "table_view_data \<lparr>page_size = 2, max_returned_rows = 1000, sql_time_limit_ms = 1000\<rparr>
     spec_utils
     (sqlite_select [''a'', ''b'']
        [(1, [(''a'', 1), (''b'', 1)]), (2, [(''a'', 1), (''b'', 2)]),
         (3, [(''a'', 2), (''b'', 1)])])
     ''t'' [''a'', ''b''] False []
   = Inr \<lparr>td_is_view = False,
          td_rows = [[(''a'', 1), (''b'', 1)], [(''a'', 1), (''b'', 2)]],
          td_truncated = False, td_columns = [''a'', ''b''],
          td_primary_keys = [''a'', ''b''],
          td_query_sql = ''select * from [t] order by a, b limit 3'',
          td_query_params = [], td_next = Some ''1,2'',
          td_next_value = Some (NextPath ''1,2'')\<rparr>
   \<and> q_limit \<lparr>q_select = ''*'', q_table_name = ''[t]'', q_where = [],
              q_order_by = [''a'', ''b''], q_limit = 3, q_offset = None\<rparr> = 2 + 1"
proof -
  let ?ds = "\<lparr>page_size = 2, max_returned_rows = 1000, sql_time_limit_ms = 1000\<rparr>"
  let ?engine = "sqlite_select [''a'', ''b'']
        [(1, [(''a'', 1), (''b'', 1)]), (2, [(''a'', 1), (''b'', 2)]),
         (3, [(''a'', 2), (''b'', 1)])]"
  let ?sql = "\<lparr>q_select = ''*'', q_table_name = ''[t]'', q_where = [],
              q_order_by = [''a'', ''b''], q_limit = 3, q_offset = None\<rparr>"
  let ?rows = "[[(''a'', 1), (''b'', 1)], [(''a'', 1), (''b'', 2)], [(''a'', 2), (''b'', 1)]]
                 :: result_row list"
  have h1: "0 < page_size ?ds" by simp
  have h2: "table_query ?ds spec_utils ''t'' [''a'', ''b''] False [] = Inr (?sql, [], None)"
    by code_simp
  have h3: "raw_args [] = Inr []" by simp
  have h4: "custom_time_limit_of [] = Inr None" by (simp add: custom_time_limit_of_def)
  have h5: "execute ?ds ?engine ?sql [] True None
              = Inr (RowsTruncated ?rows False [''a'', ''b''])"
    by code_simp
  have h6: "length ?rows \<le> q_limit ?sql" by simp
  from table_view_next_cursor[OF h1 h2 h3 h4 h5 h6]
  have c: "q_limit ?sql = page_size ?ds + 1" by blast
  have run: "table_view_data ?ds spec_utils ?engine ''t'' [''a'', ''b''] False []
   = Inr \<lparr>td_is_view = False,
          td_rows = [[(''a'', 1), (''b'', 1)], [(''a'', 1), (''b'', 2)]],
          td_truncated = False, td_columns = [''a'', ''b''],
          td_primary_keys = [''a'', ''b''],
          td_query_sql = ''select * from [t] order by a, b limit 3'',
          td_query_params = [], td_next = Some ''1,2'',
          td_next_value = Some (NextPath ''1,2'')\<rparr>"
    by code_simp
  show ?thesis using run c by simp
qed

text \<open>
  Claim C1 on its own table: primary key \<^verbatim>\<open>(a, b)\<close>, rows \<^verbatim>\<open>(1,1)\<close>, \<^verbatim>\<open>(1,2)\<close>,
  \<^verbatim>\<open>(2,1)\<close>, page size 2. The first page is \<^verbatim>\<open>(1,1)\<close>, \<^verbatim>\<open>(1,2)\<close> with the cursor
  \<^verbatim>\<open>1,2\<close>, as claimed. The request with that cursor asks for the rows with \<^verbatim>\<open>a > 1\<close>
  and \<^verbatim>\<open>b > 2\<close>, which \<^verbatim>\<open>(2,1)\<close> does not satisfy: the second page is empty and the
  row is on no page.
\<close>

theorem compound_key_next_page_loses_row:
  "table_view_data \<lparr>page_size = 2, max_returned_rows = 1000, sql_time_limit_ms = 1000\<rparr>
     spec_utils
     (sqlite_select [''a'', ''b'']
        [(1, [(''a'', 1), (''b'', 1)]), (2, [(''a'', 1), (''b'', 2)]),
         (3, [(''a'', 2), (''b'', 1)])])
     ''t'' [''a'', ''b''] False []
   = Inr \<lparr>td_is_view = False,
          td_rows = [[(''a'', 1), (''b'', 1)], [(''a'', 1), (''b'', 2)]],
          td_truncated = False, td_columns = [''a'', ''b''],
          td_primary_keys = [''a'', ''b''],
          td_query_sql = ''select * from [t] order by a, b limit 3'',
          td_query_params = [], td_next = Some ''1,2'',
          td_next_value = Some (NextPath ''1,2'')\<rparr>
   \<and> table_view_data \<lparr>page_size = 2, max_returned_rows = 1000, sql_time_limit_ms = 1000\<rparr>
     spec_utils
     (sqlite_select [''a'', ''b'']
        [(1, [(''a'', 1), (''b'', 1)]), (2, [(''a'', 1), (''b'', 2)]),
         (3, [(''a'', 2), (''b'', 1)])])
     ''t'' [''a'', ''b''] False [(''_next'', [''1,2''])]
   = Inr \<lparr>td_is_view = False, td_rows = [], td_truncated = False,
          td_columns = [''a'', ''b''], td_primary_keys = [''a'', ''b''],
          td_query_sql =
            ''select * from [t] where '' @ [CHR 0x22] @ ''a'' @ [CHR 0x22] @ '' > :p0 and ''
              @ [CHR 0x22] @ ''b'' @ [CHR 0x22] @ '' > :p1 order by a, b limit 3'',
          td_query_params = [(''p0'', ''1''), (''p1'', ''2'')],
          td_next = None, td_next_value = None\<rparr>"
  by code_simp

end
